theory Spec2Isabelle
  imports Main
begin

section \<open>The inference bridge of python/helper.py\<close>

text \<open>
  The repository's one executable component is the loop of \<^verbatim>\<open>python/helper.py\<close>: it reads a
  line from standard input, parses it as JSON, asks the jedi engine what stands at a
  position of a source text, and writes one JSON line to standard output.

  The loop is embedded with its variables in an explicit store, its two streams as a list
  of read outcomes and a trace of output events, and every exception as a value. The JSON
  parser and the engine are library code: they enter as the fields of an environment.
\<close>

subsection \<open>Python values and exceptions\<close>

text \<open>
  The values that \<^verbatim>\<open>json.loads\<close> builds and \<^verbatim>\<open>json.dumps\<close> writes. A dictionary is its
  list of items in insertion order (its keys are distinct, as in a Python dict). A float
  is carried as the text \<^verbatim>\<open>json.dumps\<close> writes for it, which is all the bridge can observe
  of it. A string holds characters with code points below 256.
\<close>

datatype pyval =
    PNone
  | PBool bool
  | PInt int
  | PFloat string
  | PStr string
  | PList "pyval list"
  | PDict "(string \<times> pyval) list"

text \<open>
  The exceptions of the model are instances of \<^verbatim>\<open>Exception\<close>, which is what the handler of
  the loop catches; an interrupt from the keyboard and an exit of the interpreter are not
  modelled. \<open>JSONDecodeError msg lineno colno pos\<close> is what \<^verbatim>\<open>json.loads\<close> raises on
  a text that is not JSON; \<open>OtherException m\<close> is any other exception, by its message.
\<close>

datatype pyexc =
    JSONDecodeError string nat nat nat
  | KeyError string
  | TypeError string
  | NameError string
  | IndexError string
  | OtherException string

definition digit :: "nat \<Rightarrow> char" where
  "digit n = ''0123456789'' ! n"

fun str_nat :: "nat \<Rightarrow> string" where
  "str_nat n = (if n < 10 then [digit n] else str_nat (n div 10) @ [digit (n mod 10)])"

definition str_int :: "int \<Rightarrow> string" where
  "str_int i = (if i < 0 then CHR ''-'' # str_nat (nat (- i)) else str_nat (nat i))"

definition quoted :: "string \<Rightarrow> string" where
  \<comment> \<open>\<^verbatim>\<open>repr\<close> of a string that holds no quote, backslash or unprintable character, as the
      names and keys of the bridge are\<close>
  "quoted s = [CHR 0x27] @ s @ [CHR 0x27]"

fun str_exc :: "pyexc \<Rightarrow> string" where
  \<comment> \<open>\<^verbatim>\<open>str(e)\<close>\<close>
  "str_exc (JSONDecodeError msg lineno colno pos) =
     msg @ '': line '' @ str_nat lineno @ '' column '' @ str_nat colno
       @ '' (char '' @ str_nat pos @ '')''"
| "str_exc (KeyError k) = quoted k"
| "str_exc (TypeError m) = m"
| "str_exc (NameError n) = ''name '' @ quoted n @ '' is not defined''"
| "str_exc (IndexError m) = m"
| "str_exc (OtherException m) = m"

fun type_name :: "pyval \<Rightarrow> string" where
  "type_name PNone = ''NoneType''"
| "type_name (PBool _) = ''bool''"
| "type_name (PInt _) = ''int''"
| "type_name (PFloat _) = ''float''"
| "type_name (PStr _) = ''str''"
| "type_name (PList _) = ''list''"
| "type_name (PDict _) = ''dict''"

fun truthy :: "pyval \<Rightarrow> bool" where
  \<comment> \<open>the truth value that \<^verbatim>\<open>not\<close> and \<^verbatim>\<open>if\<close> test\<close>
  "truthy PNone = False"
| "truthy (PBool b) = b"
| "truthy (PInt i) = (i \<noteq> 0)"
| "truthy (PFloat r) = (r \<noteq> ''0.0'' \<and> r \<noteq> ''-0.0'')"
| "truthy (PStr s) = (s \<noteq> [])"
| "truthy (PList xs) = (xs \<noteq> [])"
| "truthy (PDict kvs) = (kvs \<noteq> [])"

fun getitem :: "pyval \<Rightarrow> string \<Rightarrow> pyexc + pyval" where
  \<comment> \<open>\<^verbatim>\<open>obj[key]\<close> with a string key; the wording of the messages is that of CPython 3.10\<close>
  "getitem (PDict kvs) k = (case map_of kvs k of None \<Rightarrow> Inl (KeyError k) | Some v \<Rightarrow> Inr v)"
| "getitem (PList xs) k = Inl (TypeError ''list indices must be integers or slices, not str'')"
| "getitem (PStr s) k = Inl (TypeError ''string indices must be integers'')"
| "getitem v k = Inl (TypeError (quoted (type_name v) @ '' object is not subscriptable''))"

subsection \<open>json.dumps\<close>

text \<open>
  \<^verbatim>\<open>json.dumps\<close> with its default arguments: \<^verbatim>\<open>ensure_ascii\<close> escapes every character outside
  the printable ASCII range, items are separated by a comma and a space, a key from its
  value by a colon and a space.
\<close>

definition hex_digit :: "nat \<Rightarrow> char" where
  "hex_digit n = ''0123456789abcdef'' ! n"

definition escape_char :: "char \<Rightarrow> string" where
  "escape_char c =
    (if c = CHR 0x22 then [CHR 0x5C, CHR 0x22]
     else if c = CHR 0x5C then [CHR 0x5C, CHR 0x5C]
     else if c = CHR 0x0A then [CHR 0x5C, CHR ''n'']
     else if c = CHR 0x0D then [CHR 0x5C, CHR ''r'']
     else if c = CHR 0x09 then [CHR 0x5C, CHR ''t'']
     else if c = CHR 0x08 then [CHR 0x5C, CHR ''b'']
     else if c = CHR 0x0C then [CHR 0x5C, CHR ''f'']
     else if of_char c < (32::nat) \<or> (126::nat) < of_char c
       then [CHR 0x5C, CHR ''u'', CHR ''0'', CHR ''0'',
             hex_digit (of_char c div 16), hex_digit (of_char c mod 16)]
     else [c])"

definition encode_str :: "string \<Rightarrow> string" where
  "encode_str s = [CHR 0x22] @ concat (map escape_char s) @ [CHR 0x22]"

fun join :: "string \<Rightarrow> string list \<Rightarrow> string" where
  "join sep [] = []"
| "join sep [x] = x"
| "join sep (x # y # ys) = x @ sep @ join sep (y # ys)"

fun dumps :: "pyval \<Rightarrow> string" where
  "dumps PNone = ''null''"
| "dumps (PBool b) = (if b then ''true'' else ''false'')"
| "dumps (PInt i) = str_int i"
| "dumps (PFloat r) = r"
| "dumps (PStr s) = encode_str s"
| "dumps (PList xs) = ''['' @ join '', '' (map dumps xs) @ '']''"
| "dumps (PDict kvs) =
     ''{'' @ join '', '' (map (\<lambda>kv. encode_str (fst kv) @ '': '' @ dumps (snd kv)) kvs) @ ''}''"

subsection \<open>The environment: parser, engine and streams\<close>

text \<open>
  A candidate is what the engine returns for a position. The bridge reads five attributes
  of it; jedi computes them on demand, so reading one may raise. Each is a string or
  \<^verbatim>\<open>None\<close>.
\<close>

record candidate =
  cand_name :: "pyexc + string option"
  cand_full_name :: "pyexc + string option"
  cand_type :: "pyexc + string option"
  cand_docstring :: "pyexc + string option"
  cand_module_name :: "pyexc + string option"

datatype out_event = Write string | Flush

text \<open>
  The library calls of the bridge: \<open>loads\<close> is \<^verbatim>\<open>json.loads\<close> on a string, \<open>Script\<close> is
  \<^verbatim>\<open>jedi.Script(source, path=path)\<close> with \<open>'s\<close> the type of script objects, \<open>infer\<close> is
  \<^verbatim>\<open>script.infer(line, column)\<close>. \<open>stdout_raises h ev\<close> is the exception, if any, that
  standard output raises when \<open>ev\<close> is attempted after the events \<open>h\<close>.
\<close>

record 's env =
  loads :: "string \<Rightarrow> pyexc + pyval"
  Script :: "pyval \<Rightarrow> pyval \<Rightarrow> pyexc + 's"
  infer :: "'s \<Rightarrow> pyval \<Rightarrow> pyval \<Rightarrow> pyexc + candidate list"
  stdout_raises :: "out_event list \<Rightarrow> out_event \<Rightarrow> pyexc option"

text \<open>
  The state of the process: the module's global names, unbound (\<open>None\<close>) or bound to a
  value, and the events standard output has accepted so far.
\<close>

record 's state =
  v_line :: "pyval option"
  v_request :: "pyval option"
  v_source :: "pyval option"
  v_path :: "pyval option"
  v_column :: "pyval option"
  v_script :: "'s option"
  v_inference :: "candidate list option"
  v_result :: "pyval option"
  stdout :: "out_event list"

datatype signal = Normal | Break | Raise pyexc

type_synonym 's stmt = "'s state \<Rightarrow> signal \<times> 's state"

definition seq :: "'s stmt \<Rightarrow> 's stmt \<Rightarrow> 's stmt" where
  "seq a b s = (case a s of (Normal, s') \<Rightarrow> b s' | (sig, s') \<Rightarrow> (sig, s'))"

definition var :: "string \<Rightarrow> 'a option \<Rightarrow> pyexc + 'a" where
  \<comment> \<open>reading a global name\<close>
  "var n slot = (case slot of None \<Rightarrow> Inl (NameError n) | Some v \<Rightarrow> Inr v)"

definition and_then :: "pyexc + 'a \<Rightarrow> ('a \<Rightarrow> pyexc + 'b) \<Rightarrow> pyexc + 'b" where
  "and_then m f = (case m of Inl e \<Rightarrow> Inl e | Inr v \<Rightarrow> f v)"

definition assign :: "pyexc + 'a \<Rightarrow> ('a \<Rightarrow> 's state \<Rightarrow> 's state) \<Rightarrow> 's stmt" where
  \<comment> \<open>evaluate the right-hand side, then bind the name\<close>
  "assign rhs bind_name s =
     (case rhs of Inl e \<Rightarrow> (Raise e, s) | Inr v \<Rightarrow> (Normal, bind_name v s))"

definition json_loads :: "'s env \<Rightarrow> pyval \<Rightarrow> pyexc + pyval" where
  "json_loads env v =
     (case v of
        PStr t \<Rightarrow> loads env t
      | _ \<Rightarrow> Inl (TypeError
          (''the JSON object must be str, bytes or bytearray, not '' @ type_name v)))"

definition index0 :: "'a list \<Rightarrow> pyexc + 'a" where
  \<comment> \<open>\<^verbatim>\<open>xs[0]\<close>\<close>
  "index0 xs = (case xs of [] \<Rightarrow> Inl (IndexError ''list index out of range'') | x # _ \<Rightarrow> Inr x)"

definition opt :: "string option \<Rightarrow> pyval" where
  "opt v = (case v of None \<Rightarrow> PNone | Some t \<Rightarrow> PStr t)"

definition sys_stdout_write :: "'s env \<Rightarrow> string \<Rightarrow> 's stmt" where
  "sys_stdout_write env text s =
     (case stdout_raises env (stdout s) (Write text) of
        Some e \<Rightarrow> (Raise e, s)
      | None \<Rightarrow> (Normal, s\<lparr>stdout := stdout s @ [Write text]\<rparr>))"

definition sys_stdout_flush :: "'s env \<Rightarrow> 's stmt" where
  "sys_stdout_flush env s =
     (case stdout_raises env (stdout s) Flush of
        Some e \<Rightarrow> (Raise e, s)
      | None \<Rightarrow> (Normal, s\<lparr>stdout := stdout s @ [Flush]\<rparr>))"

subsection \<open>The statements of the loop\<close>

text \<open>\<^verbatim>\<open>line = sys.stdin.readline()\<close>: \<open>rd\<close> is what the call gives, a string or an exception.\<close>

definition read_line :: "pyexc + string \<Rightarrow> 's stmt" where
  "read_line rd s = assign (map_sum id PStr rd) (\<lambda>v s. s\<lparr>v_line := Some v\<rparr>) s"

text \<open>\<^verbatim>\<open>if not line: break\<close>\<close>

definition check_eof :: "'s stmt" where
  "check_eof s =
     (case var ''line'' (v_line s) of
        Inl e \<Rightarrow> (Raise e, s)
      | Inr v \<Rightarrow> if \<not> truthy v then (Break, s) else (Normal, s))"

text \<open>\<^verbatim>\<open>request = json.loads(line)\<close>\<close>

definition parse_request :: "'s env \<Rightarrow> 's stmt" where
  "parse_request env s =
     assign (and_then (var ''line'' (v_line s)) (json_loads env))
       (\<lambda>v s. s\<lparr>v_request := Some v\<rparr>) s"

text \<open>\<^verbatim>\<open>source = request['source']\<close> and the three assignments after it\<close>

definition get_source :: "'s stmt" where
  "get_source s =
     assign (and_then (var ''request'' (v_request s)) (\<lambda>r. getitem r ''source''))
       (\<lambda>v s. s\<lparr>v_source := Some v\<rparr>) s"

definition get_path :: "'s stmt" where
  "get_path s =
     assign (and_then (var ''request'' (v_request s)) (\<lambda>r. getitem r ''path''))
       (\<lambda>v s. s\<lparr>v_path := Some v\<rparr>) s"

definition get_line :: "'s stmt" where
  "get_line s =
     assign (and_then (var ''request'' (v_request s)) (\<lambda>r. getitem r ''line''))
       (\<lambda>v s. s\<lparr>v_line := Some v\<rparr>) s"

definition get_column :: "'s stmt" where
  "get_column s =
     assign (and_then (var ''request'' (v_request s)) (\<lambda>r. getitem r ''column''))
       (\<lambda>v s. s\<lparr>v_column := Some v\<rparr>) s"

text \<open>\<^verbatim>\<open>script = jedi.Script(source, path=path)\<close>\<close>

definition make_script :: "'s env \<Rightarrow> 's stmt" where
  "make_script env s =
     assign (and_then (var ''source'' (v_source s)) (\<lambda>src.
             and_then (var ''path'' (v_path s)) (\<lambda>p. Script env src p)))
       (\<lambda>v s. s\<lparr>v_script := Some v\<rparr>) s"

text \<open>\<^verbatim>\<open>inference = script.infer(line, column)\<close>\<close>

definition run_infer :: "'s env \<Rightarrow> 's stmt" where
  "run_infer env s =
     assign (and_then (var ''script'' (v_script s)) (\<lambda>sc.
             and_then (var ''line'' (v_line s)) (\<lambda>l.
             and_then (var ''column'' (v_column s)) (\<lambda>c. infer env sc l c))))
       (\<lambda>v s. s\<lparr>v_inference := Some v\<rparr>) s"

text \<open>
  The \<^verbatim>\<open>if inference: ... else: result = None\<close> statement. The dictionary display reads
  \<^verbatim>\<open>inference[0]\<close> once for each of its five values, in the order written.
\<close>

definition attr :: "(candidate \<Rightarrow> pyexc + string option) \<Rightarrow> 's state \<Rightarrow> pyexc + pyval" where
  \<comment> \<open>\<^verbatim>\<open>inference[0].a\<close>\<close>
  "attr a s =
     and_then (var ''inference'' (v_inference s)) (\<lambda>cs.
     and_then (index0 cs) (\<lambda>c.
     and_then (a c) (\<lambda>v. Inr (opt v))))"

definition result_dict :: "'s state \<Rightarrow> pyexc + pyval" where
  "result_dict s =
     and_then (attr cand_name s) (\<lambda>n.
     and_then (attr cand_full_name s) (\<lambda>f.
     and_then (attr cand_type s) (\<lambda>t.
     and_then (attr cand_docstring s) (\<lambda>d.
     and_then (attr cand_module_name s) (\<lambda>m.
       Inr (PDict [(''name'', n), (''full_name'', f), (''type'', t),
                   (''docstring'', d), (''module_name'', m)]))))))"

definition build_result :: "'s stmt" where
  "build_result s =
     (case var ''inference'' (v_inference s) of
        Inl e \<Rightarrow> (Raise e, s)
      | Inr cs \<Rightarrow>
          if cs \<noteq> [] then assign (result_dict s) (\<lambda>v s. s\<lparr>v_result := Some v\<rparr>) s
          else (Normal, s\<lparr>v_result := Some PNone\<rparr>))"

text \<open>\<^verbatim>\<open>sys.stdout.write(json.dumps(result) + '\n')\<close>\<close>

definition write_result :: "'s env \<Rightarrow> 's stmt" where
  "write_result env s =
     (case var ''result'' (v_result s) of
        Inl e \<Rightarrow> (Raise e, s)
      | Inr r \<Rightarrow> sys_stdout_write env (dumps r @ ''\<newline>'') s)"

text \<open>The body of the \<^verbatim>\<open>try\<close>, statement after statement.\<close>

definition try_body :: "'s env \<Rightarrow> pyexc + string \<Rightarrow> 's stmt" where
  "try_body env rd =
     seq (read_line rd)
    (seq check_eof
    (seq (parse_request env)
    (seq get_source
    (seq get_path
    (seq get_line
    (seq get_column
    (seq (make_script env)
    (seq (run_infer env)
    (seq build_result
    (seq (write_result env)
         (sys_stdout_flush env)))))))))))"

text \<open>
  The handler of \<^verbatim>\<open>except Exception as e\<close>: it writes the message of the exception and
  flushes. The name \<^verbatim>\<open>e\<close> is bound on entry and unbound again on exit, so it is a parameter
  here and not a field of the store. Nothing catches what the handler itself raises.
\<close>

definition error_line :: "pyexc \<Rightarrow> string" where
  "error_line e = dumps (PDict [(''error'', PStr (str_exc e))]) @ ''\<newline>''"

definition handler :: "'s env \<Rightarrow> pyexc \<Rightarrow> 's stmt" where
  "handler env e = seq (sys_stdout_write env (error_line e)) (sys_stdout_flush env)"

definition iteration :: "'s env \<Rightarrow> pyexc + string \<Rightarrow> 's stmt" where
  "iteration env rd s =
     (case try_body env rd s of
        (Raise e, s') \<Rightarrow> handler env e s'
      | (sig, s') \<Rightarrow> (sig, s'))"

text \<open>
  The \<^verbatim>\<open>while True\<close> loop, run on the outcomes of the reads that standard input has
  delivered so far. After the last of them the process is blocked in the next read
  (\<open>Reading\<close>); it has left the loop by \<^verbatim>\<open>break\<close> and ended (\<open>Stopped\<close>); or an exception
  has left the loop uncaught (\<open>Crashed\<close>).
\<close>

datatype status = Reading | Stopped | Crashed pyexc

fun run :: "'s env \<Rightarrow> (pyexc + string) list \<Rightarrow> 's state \<Rightarrow> status \<times> 's state" where
  "run env [] s = (Reading, s)"
| "run env (rd # rds) s =
     (case iteration env rd s of
        (Normal, s') \<Rightarrow> run env rds s'
      | (Break, s') \<Rightarrow> (Stopped, s')
      | (Raise e, s') \<Rightarrow> (Crashed e, s'))"

definition start :: "'s state" where
  \<comment> \<open>the state before the loop: no name bound, nothing written\<close>
  "start = \<lparr>v_line = None, v_request = None, v_source = None, v_path = None,
     v_column = None, v_script = None, v_inference = None, v_result = None, stdout = []\<rparr>"

subsection \<open>What one iteration computes and what standard output sees\<close>

text \<open>
  The assignments of the \<^verbatim>\<open>try\<close> body from \<^verbatim>\<open>json.loads\<close> down to \<^verbatim>\<open>result\<close>, read as one
  expression over the line: \<open>process env l\<close> is the value bound to \<^verbatim>\<open>result\<close>, or the first
  exception raised on the way. The lemmas below show that the statements, run from any
  store, compute exactly this.
\<close>

definition fields :: "candidate \<Rightarrow> pyexc + pyval" where
  "fields c =
     and_then (cand_name c) (\<lambda>n.
     and_then (cand_full_name c) (\<lambda>f.
     and_then (cand_type c) (\<lambda>t.
     and_then (cand_docstring c) (\<lambda>d.
     and_then (cand_module_name c) (\<lambda>m.
       Inr (PDict [(''name'', opt n), (''full_name'', opt f), (''type'', opt t),
                   (''docstring'', opt d), (''module_name'', opt m)]))))))"

definition process :: "'s env \<Rightarrow> string \<Rightarrow> pyexc + pyval" where
  "process env l =
     and_then (loads env l) (\<lambda>request.
     and_then (getitem request ''source'') (\<lambda>source.
     and_then (getitem request ''path'') (\<lambda>path.
     and_then (getitem request ''line'') (\<lambda>line.
     and_then (getitem request ''column'') (\<lambda>column.
     and_then (Script env source path) (\<lambda>script.
     and_then (infer env script line column) (\<lambda>inference.
       case inference of [] \<Rightarrow> Inr PNone | c # _ \<Rightarrow> fields c)))))))"

text \<open>A write followed by a flush, on the trace of standard output alone.\<close>

definition emit :: "'s env \<Rightarrow> string \<Rightarrow> out_event list \<Rightarrow> signal \<times> out_event list" where
  "emit env text h =
     (case stdout_raises env h (Write text) of
        Some e \<Rightarrow> (Raise e, h)
      | None \<Rightarrow>
          (case stdout_raises env (h @ [Write text]) Flush of
             Some e \<Rightarrow> (Raise e, h @ [Write text])
           | None \<Rightarrow> (Normal, h @ [Write text, Flush])))"

definition try_body_io ::
  "'s env \<Rightarrow> pyexc + string \<Rightarrow> out_event list \<Rightarrow> signal \<times> out_event list" where
  "try_body_io env rd h =
     (case rd of
        Inl e \<Rightarrow> (Raise e, h)
      | Inr l \<Rightarrow>
          if l = [] then (Break, h)
          else (case process env l of
                  Inl e \<Rightarrow> (Raise e, h)
                | Inr r \<Rightarrow> emit env (dumps r @ ''\<newline>'') h))"

definition iteration_io ::
  "'s env \<Rightarrow> pyexc + string \<Rightarrow> out_event list \<Rightarrow> signal \<times> out_event list" where
  "iteration_io env rd h =
     (case try_body_io env rd h of
        (Raise e, h') \<Rightarrow> emit env (error_line e) h'
      | (sig, h') \<Rightarrow> (sig, h'))"

text \<open>Standard output accepts every write and every flush.\<close>

definition stdout_ok :: "'s env \<Rightarrow> bool" where
  "stdout_ok env = (\<forall>h ev. stdout_raises env h ev = None)"

text \<open>The line that answers one read, as a function of the environment and that read alone.\<close>

definition response_line :: "'s env \<Rightarrow> pyexc + string \<Rightarrow> string" where
  "response_line env rd =
     (case rd of
        Inl e \<Rightarrow> error_line e
      | Inr l \<Rightarrow>
          (case process env l of
             Inl e \<Rightarrow> error_line e
           | Inr r \<Rightarrow> dumps r @ ''\<newline>''))"

definition one_line :: "string \<Rightarrow> bool" where
  \<comment> \<open>a text that ends in a newline and holds no other\<close>
  "one_line t = (t \<noteq> [] \<and> last t = CHR 0x0A \<and> CHR 0x0A \<notin> set (butlast t))"

fun written :: "out_event list \<Rightarrow> string list" where
  \<comment> \<open>the texts written, in order\<close>
  "written [] = []"
| "written (Write t # h) = t # written h"
| "written (Flush # h) = written h"

subsection \<open>A sample environment\<close>

text \<open>
  A parser that knows the lines of the examples below and rejects every other text, and
  an engine that knows one position of one source. A script object is the pair of the
  source and the path it was made from.
\<close>

definition os_candidate :: candidate where
  "os_candidate =
     \<lparr>cand_name = Inr (Some ''os''), cand_full_name = Inr (Some ''os''),
      cand_type = Inr (Some ''module''), cand_docstring = Inr (Some ''OS routines''),
      cand_module_name = Inr (Some ''os'')\<rparr>"

definition later_candidate :: candidate where
  "later_candidate =
     \<lparr>cand_name = Inr (Some ''posix''), cand_full_name = Inr None,
      cand_type = Inr (Some ''module''), cand_docstring = Inr (Some []),
      cand_module_name = Inr None\<rparr>"

definition line_os :: string where
  \<open>line_os = ''{"source": "import os", "path": "a.py", "line": 1, "column": 7}\<newline>''\<close>

definition line_blank_source :: string where
  \<open>line_blank_source = ''{"source": "", "path": "a.py", "line": 1, "column": 0}\<newline>''\<close>

definition line_no_column :: string where
  \<open>line_no_column = ''{"source": "import os", "path": "a.py", "line": 1}\<newline>''\<close>

definition sample_loads :: "string \<Rightarrow> pyexc + pyval" where
  "sample_loads t =
     (if t = line_os then
        Inr (PDict [(''source'', PStr ''import os''), (''path'', PStr ''a.py''),
                    (''line'', PInt 1), (''column'', PInt 7)])
      else if t = line_blank_source then
        Inr (PDict [(''source'', PStr []), (''path'', PStr ''a.py''),
                    (''line'', PInt 1), (''column'', PInt 0)])
      else if t = line_no_column then
        Inr (PDict [(''source'', PStr ''import os''), (''path'', PStr ''a.py''),
                    (''line'', PInt 1)])
      else if t = ''\<newline>'' then Inl (JSONDecodeError ''Expecting value'' 2 1 1)
      else Inl (JSONDecodeError ''Expecting value'' 1 1 0))"

definition sample_infer :: "pyval \<times> pyval \<Rightarrow> pyval \<Rightarrow> pyval \<Rightarrow> pyexc + candidate list" where
  "sample_infer script l c =
     (if fst script = PStr ''import os'' \<and> l = PInt 1 \<and> c = PInt 7
      then Inr [os_candidate, later_candidate] else Inr [])"

definition sample_env :: "(pyval \<times> pyval) env" where
  "sample_env =
     \<lparr>loads = sample_loads, Script = (\<lambda>src p. Inr (src, p)), infer = sample_infer,
      stdout_raises = (\<lambda>h ev. None)\<rparr>"

definition closed_pipe_env :: "(pyval \<times> pyval) env" where
  \<comment> \<open>the same, with a standard output whose reader has gone\<close>
  "closed_pipe_env =
     sample_env\<lparr>stdout_raises := (\<lambda>h ev. Some (OtherException ''[Errno 32] Broken pipe''))\<rparr>"

definition flush_fails_env :: "(pyval \<times> pyval) env" where
  \<comment> \<open>the same, with a standard output that buffers every write and fails every flush\<close>
  "flush_fails_env =
     sample_env\<lparr>stdout_raises :=
       (\<lambda>h ev. if ev = Flush then Some (OtherException ''[Errno 32] Broken pipe'') else None)\<rparr>"

section \<open>Properties\<close>

subsection \<open>The statements compute \<open>process\<close>, from any store\<close>

lemmas stmt_defs = read_line_def check_eof_def parse_request_def get_source_def get_path_def
  get_line_def get_column_def make_script_def run_infer_def build_result_def write_result_def
  sys_stdout_write_def sys_stdout_flush_def json_loads_def var_def assign_def and_then_def
  seq_def

lemmas body_defs = try_body_def try_body_io_def process_def stmt_defs

lemma result_dict_fields:
  "v_inference s = Some (c # cs) \<Longrightarrow> result_dict s = fields c"
  by (simp add: result_dict_def attr_def fields_def var_def index0_def and_then_def
      split: sum.splits)

lemma try_body_obs_line:
  assumes "l \<noteq> []"
  shows "apsnd stdout (try_body env (Inr l) s) = try_body_io env (Inr l) (stdout s)"
proof (cases "loads env l")
  case Inl
  with assms show ?thesis by (simp add: body_defs)
next
  case request: (Inr request)
  show ?thesis
  proof (cases "getitem request ''source''")
    case Inl
    with assms request show ?thesis by (simp add: body_defs)
  next
    case source: (Inr source)
    show ?thesis
    proof (cases "getitem request ''path''")
      case Inl
      with assms request source show ?thesis by (simp add: body_defs)
    next
      case path: (Inr path)
      show ?thesis
      proof (cases "getitem request ''line''")
        case Inl
        with assms request source path show ?thesis by (simp add: body_defs)
      next
        case line: (Inr line)
        show ?thesis
        proof (cases "getitem request ''column''")
          case Inl
          with assms request source path line show ?thesis by (simp add: body_defs)
        next
          case column: (Inr column)
          show ?thesis
          proof (cases "Script env source path")
            case Inl
            with assms request source path line column show ?thesis by (simp add: body_defs)
          next
            case script: (Inr script)
            show ?thesis
            proof (cases "infer env script line column")
              case Inl
              with assms request source path line column script show ?thesis
                by (simp add: body_defs)
            next
              case inference: (Inr inference)
              show ?thesis
              proof (cases inference)
                case Nil
                with assms request source path line column script inference show ?thesis
                  by (simp add: body_defs emit_def split: option.split)
              next
                case (Cons c cs)
                show ?thesis
                proof (cases "fields c")
                  case (Inl e)
                  with assms request source path line column script inference Cons show ?thesis
                    by (simp add: body_defs result_dict_fields)
                next
                  case (Inr r)
                  with assms request source path line column script inference Cons show ?thesis
                    by (simp add: body_defs result_dict_fields emit_def split: option.split)
                qed
              qed
            qed
          qed
        qed
      qed
    qed
  qed
qed


lemma try_body_obs:
  "apsnd stdout (try_body env rd s) = try_body_io env rd (stdout s)"
proof (cases rd)
  case (Inl e)
  then show ?thesis by (simp add: body_defs)
next
  case (Inr l)
  show ?thesis
  proof (cases "l = []")
    case True
    with Inr show ?thesis by (simp add: body_defs)
  next
    case False
    with Inr show ?thesis by (simp add: try_body_obs_line)
  qed
qed

lemma handler_obs:
  "apsnd stdout (handler env e s) = emit env (error_line e) (stdout s)"
  by (simp add: handler_def emit_def seq_def sys_stdout_write_def sys_stdout_flush_def
      split: option.split)

lemma iteration_obs:
  "apsnd stdout (iteration env rd s) = iteration_io env rd (stdout s)"
proof -
  obtain sig s' where tb: "try_body env rd s = (sig, s')" by (cases "try_body env rd s")
  with try_body_obs [of env rd s] have io: "try_body_io env rd (stdout s) = (sig, stdout s')"
    by simp
  show ?thesis
    by (cases sig) (simp_all add: iteration_def iteration_io_def tb io handler_obs)
qed

lemma emit_ok: "stdout_ok env \<Longrightarrow> emit env t h = (Normal, h @ [Write t, Flush])"
  by (simp add: emit_def stdout_ok_def)

lemma iteration_io_eof: "iteration_io env (Inr []) h = (Break, h)"
  by (simp add: iteration_io_def try_body_io_def)

lemma iteration_io_ok:
  "stdout_ok env \<Longrightarrow> rd \<noteq> Inr [] \<Longrightarrow>
   iteration_io env rd h = (Normal, h @ [Write (response_line env rd), Flush])"
  by (cases rd)
     (simp_all add: iteration_io_def try_body_io_def response_line_def emit_ok
        split: sum.split)

lemma iteration_eof:
  "fst (iteration env (Inr []) s) = Break" "stdout (snd (iteration env (Inr []) s)) = stdout s"
  using iteration_obs [of env "Inr []" s]
  by (cases "iteration env (Inr []) s"; simp add: iteration_io_eof)+

lemma iteration_ok:
  assumes "stdout_ok env" "rd \<noteq> Inr []"
  shows "fst (iteration env rd s) = Normal"
    and "stdout (snd (iteration env rd s)) = stdout s @ [Write (response_line env rd), Flush]"
  using iteration_obs [of env rd s] iteration_io_ok [OF assms, of "stdout s"]
  by (cases "iteration env rd s"; simp)+

lemma run_step:
  "run env (rd # rds) s =
     (case fst (iteration env rd s) of
        Normal \<Rightarrow> run env rds (snd (iteration env rd s))
      | Break \<Rightarrow> (Stopped, snd (iteration env rd s))
      | Raise e \<Rightarrow> (Crashed e, snd (iteration env rd s)))"
  by (cases "iteration env rd s") (simp split: signal.split)

lemma run_ok:
  assumes "stdout_ok env"
  shows "fst (run env rds s) = (if Inr [] \<in> set rds then Stopped else Reading) \<and>
         stdout (snd (run env rds s)) =
           stdout s @ concat (map (\<lambda>rd. [Write (response_line env rd), Flush])
                               (takeWhile (\<lambda>rd. rd \<noteq> Inr []) rds))"
proof (induction rds arbitrary: s)
  case Nil
  show ?case by simp
next
  case (Cons rd rds)
  show ?case
  proof (cases "rd = Inr []")
    case True
    then show ?thesis by (simp add: run_step iteration_eof del: run.simps)
  next
    case False
    with Cons [of "snd (iteration env rd s)"] show ?thesis
      by (auto simp add: run_step iteration_ok [OF assms False] simp del: run.simps)
  qed
qed

subsection \<open>The samples\<close>

lemmas sample_defs = sample_env_def sample_loads_def sample_infer_def line_os_def
  line_blank_source_def line_no_column_def os_candidate_def later_candidate_def

lemma sample_stdout_ok: "stdout_ok sample_env"
  by (simp add: stdout_ok_def sample_env_def)

subsection \<open>A request that resolves to nothing\<close>

lemma process_no_candidate:
  assumes "loads env l = Inr request"
    and "getitem request ''source'' = Inr source"
    and "getitem request ''path'' = Inr path"
    and "getitem request ''line'' = Inr line"
    and "getitem request ''column'' = Inr column"
    and "Script env source path = Inr script"
    and "infer env script line column = Inr []"
  shows "process env l = Inr PNone"
  using assms by (simp add: process_def and_then_def)

text \<open>
  C4. A line that parses to an object with the four fields, for which the engine returns
  the empty list, is answered by the write of exactly the text \<^verbatim>\<open>null\<close> and a newline,
  followed at once by a flush; the loop goes on. The statement is for a standard output
  that accepts its writes.
\<close>

theorem null_when_no_candidate:
  assumes "stdout_ok env"
    and "l \<noteq> []"
    and "loads env l = Inr request"
    and "getitem request ''source'' = Inr source"
    and "getitem request ''path'' = Inr path"
    and "getitem request ''line'' = Inr line"
    and "getitem request ''column'' = Inr column"
    and "Script env source path = Inr script"
    and "infer env script line column = Inr []"
  shows "fst (iteration env (Inr l) s) = Normal \<and>
         stdout (snd (iteration env (Inr l) s)) = stdout s @ [Write ''null\<newline>'', Flush]"
proof -
  have "process env l = Inr PNone"
    using assms(3-9) by (rule process_no_candidate)
  then have "response_line env (Inr l) = ''null\<newline>''"
    by (simp add: response_line_def)
  moreover have "Inr l \<noteq> (Inr [] :: pyexc + string)"
    using assms(2) by simp
  ultimately show ?thesis
    using iteration_ok [OF assms(1), of "Inr l" s] by simp
qed

theorem null_when_no_candidate_witness:
  "stdout_ok sample_env \<and> line_blank_source \<noteq> [] \<and>
   loads sample_env line_blank_source =
     Inr (PDict [(''source'', PStr []), (''path'', PStr ''a.py''),
                 (''line'', PInt 1), (''column'', PInt 0)]) \<and>
   Script sample_env (PStr []) (PStr ''a.py'') = Inr (PStr [], PStr ''a.py'') \<and>
   infer sample_env (PStr [], PStr ''a.py'') (PInt 1) (PInt 0) = Inr [] \<and>
   fst (iteration sample_env (Inr line_blank_source) start) = Normal \<and>
   stdout (snd (iteration sample_env (Inr line_blank_source) start)) =
     [Write ''null\<newline>'', Flush]"
proof -
  have ne: "line_blank_source \<noteq> []" by (simp add: line_blank_source_def)
  have ld: "loads sample_env line_blank_source =
     Inr (PDict [(''source'', PStr []), (''path'', PStr ''a.py''),
                 (''line'', PInt 1), (''column'', PInt 0)])"
    by (simp add: sample_defs)
  have g: "getitem (PDict [(''source'', PStr []), (''path'', PStr ''a.py''),
                 (''line'', PInt 1), (''column'', PInt 0)]) ''source'' = Inr (PStr [])"
    "getitem (PDict [(''source'', PStr []), (''path'', PStr ''a.py''),
                 (''line'', PInt 1), (''column'', PInt 0)]) ''path'' = Inr (PStr ''a.py'')"
    "getitem (PDict [(''source'', PStr []), (''path'', PStr ''a.py''),
                 (''line'', PInt 1), (''column'', PInt 0)]) ''line'' = Inr (PInt 1)"
    "getitem (PDict [(''source'', PStr []), (''path'', PStr ''a.py''),
                 (''line'', PInt 1), (''column'', PInt 0)]) ''column'' = Inr (PInt 0)"
    by simp_all
  have sc: "Script sample_env (PStr []) (PStr ''a.py'') = Inr (PStr [], PStr ''a.py'')"
    by (simp add: sample_env_def)
  have inf: "infer sample_env (PStr [], PStr ''a.py'') (PInt 1) (PInt 0) = Inr []"
    by (simp add: sample_env_def sample_infer_def)
  note null_when_no_candidate [OF sample_stdout_ok ne ld g sc inf, of start]
  with sample_stdout_ok ne ld sc inf show ?thesis by (simp add: start_def)
qed

subsection \<open>A request that resolves to candidates\<close>

lemma process_first_candidate:
  assumes "loads env l = Inr request"
    and "getitem request ''source'' = Inr source"
    and "getitem request ''path'' = Inr path"
    and "getitem request ''line'' = Inr line"
    and "getitem request ''column'' = Inr column"
    and "Script env source path = Inr script"
    and "infer env script line column = Inr (c # cs)"
  shows "process env l = fields c"
  using assms by (simp add: process_def and_then_def)

lemma sample_request:
  "loads sample_env line_os =
     Inr (PDict [(''source'', PStr ''import os''), (''path'', PStr ''a.py''),
                 (''line'', PInt 1), (''column'', PInt 7)])"
  "Script sample_env (PStr ''import os'') (PStr ''a.py'') = Inr (PStr ''import os'', PStr ''a.py'')"
  "infer sample_env (PStr ''import os'', PStr ''a.py'') (PInt 1) (PInt 7) =
     Inr [os_candidate, later_candidate]"
  by (simp_all add: sample_env_def sample_loads_def sample_infer_def line_os_def)

text \<open>
  C3. A line that parses to an object with the four fields, for which the engine returns
  a list with first element \<open>c\<close>, is answered by the JSON text of a dictionary with exactly
  the keys \<^verbatim>\<open>name\<close>, \<^verbatim>\<open>full_name\<close>, \<^verbatim>\<open>type\<close>, \<^verbatim>\<open>docstring\<close> and \<^verbatim>\<open>module_name\<close>, whose values
  are the five attributes of \<open>c\<close>; the rest \<open>cs\<close> of the list does not occur in the answer.
  The five attributes are read without an exception, and standard output accepts its
  writes.
\<close>

theorem five_fields_of_first_candidate:
  assumes "stdout_ok env"
    and "l \<noteq> []"
    and "loads env l = Inr request"
    and "getitem request ''source'' = Inr source"
    and "getitem request ''path'' = Inr path"
    and "getitem request ''line'' = Inr line"
    and "getitem request ''column'' = Inr column"
    and "Script env source path = Inr script"
    and "infer env script line column = Inr (c # cs)"
    and "cand_name c = Inr n"
    and "cand_full_name c = Inr f"
    and "cand_type c = Inr t"
    and "cand_docstring c = Inr d"
    and "cand_module_name c = Inr m"
  shows "fst (iteration env (Inr l) s) = Normal \<and>
         stdout (snd (iteration env (Inr l) s)) =
           stdout s @
           [Write (dumps (PDict [(''name'', opt n), (''full_name'', opt f), (''type'', opt t),
                                 (''docstring'', opt d), (''module_name'', opt m)])
                   @ ''\<newline>''),
            Flush]"
proof -
  have "process env l = fields c"
    using assms(3-9) by (rule process_first_candidate)
  also have "fields c =
      Inr (PDict [(''name'', opt n), (''full_name'', opt f), (''type'', opt t),
                  (''docstring'', opt d), (''module_name'', opt m)])"
    using assms(10-14) by (simp add: fields_def and_then_def)
  finally have "response_line env (Inr l) =
      dumps (PDict [(''name'', opt n), (''full_name'', opt f), (''type'', opt t),
                    (''docstring'', opt d), (''module_name'', opt m)]) @ ''\<newline>''"
    by (simp add: response_line_def)
  moreover have "Inr l \<noteq> (Inr [] :: pyexc + string)"
    using assms(2) by simp
  ultimately show ?thesis
    using iteration_ok [OF assms(1), of "Inr l" s] by simp
qed

theorem five_fields_of_first_candidate_witness:
  \<open>stdout_ok sample_env \<and> line_os \<noteq> [] \<and>
   infer sample_env (PStr ''import os'', PStr ''a.py'') (PInt 1) (PInt 7) =
     Inr [os_candidate, later_candidate] \<and>
   fst (iteration sample_env (Inr line_os) start) = Normal \<and>
   stdout (snd (iteration sample_env (Inr line_os) start)) =
     [Write (''{"name": "os", "full_name": "os", "type": "module", '' @
             ''"docstring": "OS routines", "module_name": "os"}\<newline>''),
      Flush]\<close>
proof -
  have ne: "line_os \<noteq> []" by (simp add: line_os_def)
  have g: "getitem (PDict [(''source'', PStr ''import os''), (''path'', PStr ''a.py''),
                 (''line'', PInt 1), (''column'', PInt 7)]) ''source'' = Inr (PStr ''import os'')"
    "getitem (PDict [(''source'', PStr ''import os''), (''path'', PStr ''a.py''),
                 (''line'', PInt 1), (''column'', PInt 7)]) ''path'' = Inr (PStr ''a.py'')"
    "getitem (PDict [(''source'', PStr ''import os''), (''path'', PStr ''a.py''),
                 (''line'', PInt 1), (''column'', PInt 7)]) ''line'' = Inr (PInt 1)"
    "getitem (PDict [(''source'', PStr ''import os''), (''path'', PStr ''a.py''),
                 (''line'', PInt 1), (''column'', PInt 7)]) ''column'' = Inr (PInt 7)"
    by simp_all
  have a: "cand_name os_candidate = Inr (Some ''os'')"
    "cand_full_name os_candidate = Inr (Some ''os'')"
    "cand_type os_candidate = Inr (Some ''module'')"
    "cand_docstring os_candidate = Inr (Some ''OS routines'')"
    "cand_module_name os_candidate = Inr (Some ''os'')"
    by (simp_all add: os_candidate_def)
  note five_fields_of_first_candidate
    [OF sample_stdout_ok ne sample_request(1) g sample_request(2,3) a, of start]
  then show ?thesis
    using sample_stdout_ok ne sample_request(3)
    by (simp add: start_def opt_def encode_str_def escape_char_def)
qed

subsection \<open>The text of an answer is one line\<close>

lemma of_char_less_256: "of_char c < (256::nat)"
proof -
  have "of_char c mod 256 = (of_char c :: nat)" by simp
  then show ?thesis by (metis mod_less_divisor zero_less_numeral)
qed

lemma hex_digit_not_newline: "n < 16 \<Longrightarrow> hex_digit n \<noteq> CHR 0x0A"
proof -
  assume "n < 16"
  then have "hex_digit n \<in> set ''0123456789abcdef''"
    unfolding hex_digit_def by (intro nth_mem) simp
  then show ?thesis by auto
qed

lemma escape_char_no_newline: "CHR 0x0A \<notin> set (escape_char c)"
proof -
  have "of_char c div 16 < (16::nat)"
    using of_char_less_256 [of c] by arith
  then have "hex_digit (of_char c div 16) \<noteq> CHR 0x0A"
    by (rule hex_digit_not_newline)
  moreover have "hex_digit (of_char c mod 16) \<noteq> CHR 0x0A"
    by (rule hex_digit_not_newline) simp
  ultimately show ?thesis
    by (auto simp add: escape_char_def)
qed

lemma encode_str_no_newline: "CHR 0x0A \<notin> set (encode_str t)"
  by (simp add: encode_str_def escape_char_no_newline)

lemma one_line_append: "CHR 0x0A \<notin> set t \<Longrightarrow> one_line (t @ ''\<newline>'')"
  by (simp add: one_line_def)

lemma error_line_one_line: "one_line (error_line e)"
  unfolding error_line_def
  by (rule one_line_append) (simp add: encode_str_no_newline)

subsection \<open>A line that is not a request\<close>

lemma process_decode_error:
  "loads env l = Inl e \<Longrightarrow> process env l = Inl e"
  by (simp add: process_def and_then_def)

lemma process_missing_field:
  assumes "loads env l = Inr (PDict kvs)"
    and "\<not> {''source'', ''path'', ''line'', ''column''} \<subseteq> dom (map_of kvs)"
  shows "\<exists>k. process env l = Inl (KeyError k)"
proof (cases "map_of kvs ''source''")
  case None
  with assms(1) show ?thesis by (simp add: process_def and_then_def)
next
  case source: (Some source)
  show ?thesis
  proof (cases "map_of kvs ''path''")
    case None
    with assms(1) source show ?thesis by (simp add: process_def and_then_def)
  next
    case path: (Some path)
    show ?thesis
    proof (cases "map_of kvs ''line''")
      case None
      with assms(1) source path show ?thesis by (simp add: process_def and_then_def)
    next
      case line: (Some line)
      from assms(2) source path line have "map_of kvs ''column'' = None"
        by (auto simp add: dom_def)
      with assms(1) source path line show ?thesis by (simp add: process_def and_then_def)
    qed
  qed
qed

lemma error_step:
  assumes "stdout_ok env" and "l \<noteq> []" and "process env l = Inl e"
  shows "fst (iteration env (Inr l) s) = Normal"
    and "stdout (snd (iteration env (Inr l) s)) = stdout s @ [Write (error_line e), Flush]"
    and "run env (Inr l # rds) s = run env rds (snd (iteration env (Inr l) s))"
proof -
  have ne: "Inr l \<noteq> (Inr [] :: pyexc + string)" using assms(2) by simp
  have rl: "response_line env (Inr l) = error_line e"
    using assms(3) by (simp add: response_line_def)
  show n: "fst (iteration env (Inr l) s) = Normal"
    by (rule iteration_ok(1) [OF assms(1) ne])
  show "stdout (snd (iteration env (Inr l) s)) = stdout s @ [Write (error_line e), Flush]"
    using iteration_ok(2) [OF assms(1) ne, of s] rl by simp
  show "run env (Inr l # rds) s = run env rds (snd (iteration env (Inr l) s))"
    using n by (simp add: run_step del: run.simps)
qed

text \<open>
  C2. A line that \<^verbatim>\<open>json.loads\<close> rejects, or that parses to an object without one of
  \<^verbatim>\<open>source\<close>, \<^verbatim>\<open>path\<close>, \<^verbatim>\<open>line\<close>, \<^verbatim>\<open>column\<close>, is answered by exactly one write, of the JSON
  text of a dictionary with the one key \<^verbatim>\<open>error\<close> and a message that is not empty, on one
  line, then flushed; the loop then runs on the reads that follow. Standard output accepts
  its writes.
\<close>

theorem malformed_line_error_response:
  assumes "stdout_ok env"
    and "l \<noteq> []"
    and "(\<exists>m ln c p. loads env l = Inl (JSONDecodeError m ln c p)) \<or>
         (\<exists>kvs. loads env l = Inr (PDict kvs) \<and>
                \<not> {''source'', ''path'', ''line'', ''column''} \<subseteq> dom (map_of kvs))"
  shows "\<exists>msg. msg \<noteq> [] \<and>
           fst (iteration env (Inr l) s) = Normal \<and>
           stdout (snd (iteration env (Inr l) s)) =
             stdout s @ [Write (dumps (PDict [(''error'', PStr msg)]) @ ''\<newline>''), Flush] \<and>
           one_line (dumps (PDict [(''error'', PStr msg)]) @ ''\<newline>'') \<and>
           run env (Inr l # rds) s = run env rds (snd (iteration env (Inr l) s))"
proof -
  from assms(3) obtain e where e: "process env l = Inl e" and msg: "str_exc e \<noteq> []"
  proof
    assume "\<exists>m ln c p. loads env l = Inl (JSONDecodeError m ln c p)"
    then obtain m ln c p where "loads env l = Inl (JSONDecodeError m ln c p)" by blast
    then have "process env l = Inl (JSONDecodeError m ln c p)"
      by (rule process_decode_error)
    moreover have "str_exc (JSONDecodeError m ln c p) \<noteq> []" by simp
    ultimately show ?thesis by (rule that)
  next
    assume "\<exists>kvs. loads env l = Inr (PDict kvs) \<and>
                \<not> {''source'', ''path'', ''line'', ''column''} \<subseteq> dom (map_of kvs)"
    then obtain k where "process env l = Inl (KeyError k)"
      using process_missing_field by blast
    moreover have "str_exc (KeyError k) \<noteq> []" by (simp add: quoted_def)
    ultimately show ?thesis by (rule that)
  qed
  have "one_line (dumps (PDict [(''error'', PStr (str_exc e))]) @ ''\<newline>'')"
    using error_line_one_line [of e] by (simp add: error_line_def)
  with msg error_step [OF assms(1,2) e] show ?thesis
    unfolding error_line_def by blast
qed

theorem malformed_line_error_response_witness:
  \<open>stdout_ok sample_env \<and>
   loads sample_env ''not json\<newline>'' = Inl (JSONDecodeError ''Expecting value'' 1 1 0) \<and>
   (\<exists>msg. msg \<noteq> [] \<and>
      fst (iteration sample_env (Inr ''not json\<newline>'') start) = Normal \<and>
      stdout (snd (iteration sample_env (Inr ''not json\<newline>'') start)) =
        [Write (dumps (PDict [(''error'', PStr msg)]) @ ''\<newline>''), Flush] \<and>
      one_line (dumps (PDict [(''error'', PStr msg)]) @ ''\<newline>'') \<and>
      run sample_env [Inr ''not json\<newline>'', Inr line_blank_source] start =
        run sample_env [Inr line_blank_source]
          (snd (iteration sample_env (Inr ''not json\<newline>'') start))) \<and>
   loads sample_env line_no_column =
     Inr (PDict [(''source'', PStr ''import os''), (''path'', PStr ''a.py''),
                 (''line'', PInt 1)]) \<and>
   (\<exists>msg. msg \<noteq> [] \<and>
      fst (iteration sample_env (Inr line_no_column) start) = Normal \<and>
      stdout (snd (iteration sample_env (Inr line_no_column) start)) =
        [Write (dumps (PDict [(''error'', PStr msg)]) @ ''\<newline>''), Flush] \<and>
      one_line (dumps (PDict [(''error'', PStr msg)]) @ ''\<newline>'') \<and>
      run sample_env [Inr line_no_column] start =
        run sample_env [] (snd (iteration sample_env (Inr line_no_column) start))) \<and>
   stdout (snd (iteration sample_env (Inr ''not json\<newline>'') start)) =
     [Write ''{"error": "Expecting value: line 1 column 1 (char 0)"}\<newline>'', Flush] \<and>
   stdout (snd (iteration sample_env (Inr line_no_column) start)) =
     [Write (''{"error": "'' @ quoted ''column'' @ ''"}\<newline>''), Flush]\<close>
proof -
  have l1: "loads sample_env ''not json\<newline>'' = Inl (JSONDecodeError ''Expecting value'' 1 1 0)"
    by (simp add: sample_defs)
  have l2: "loads sample_env line_no_column =
     Inr (PDict [(''source'', PStr ''import os''), (''path'', PStr ''a.py''),
                 (''line'', PInt 1)])"
    by (simp add: sample_defs)
  have m2: "\<not> {''source'', ''path'', ''line'', ''column''} \<subseteq>
      dom (map_of [(''source'', PStr ''import os''), (''path'', PStr ''a.py''),
                   (''line'', PInt 1)])"
    by (simp add: dom_def)
  have n1: "''not json\<newline>'' \<noteq> []" by simp
  have n2: "line_no_column \<noteq> []" by (simp add: line_no_column_def)
  have a: "(\<exists>m ln c p. loads sample_env ''not json\<newline>'' = Inl (JSONDecodeError m ln c p)) \<or>
         (\<exists>kvs. loads sample_env ''not json\<newline>'' = Inr (PDict kvs) \<and>
                \<not> {''source'', ''path'', ''line'', ''column''} \<subseteq> dom (map_of kvs))"
    using l1 by blast
  have b: "(\<exists>m ln c p. loads sample_env line_no_column = Inl (JSONDecodeError m ln c p)) \<or>
         (\<exists>kvs. loads sample_env line_no_column = Inr (PDict kvs) \<and>
                \<not> {''source'', ''path'', ''line'', ''column''} \<subseteq> dom (map_of kvs))"
    using l2 m2 by blast
  note t1 = malformed_line_error_response
    [OF sample_stdout_ok n1 a, of start "[Inr line_blank_source]"]
  note t2 = malformed_line_error_response [OF sample_stdout_ok n2 b, of start "[]"]
  have p1: "process sample_env ''not json\<newline>'' =
      Inl (JSONDecodeError ''Expecting value'' 1 1 0)"
    using l1 by (rule process_decode_error)
  have p2: "process sample_env line_no_column = Inl (KeyError ''column'')"
    using l2 by (simp add: process_def and_then_def)
  have x1: \<open>stdout (snd (iteration sample_env (Inr ''not json\<newline>'') start)) =
     [Write ''{"error": "Expecting value: line 1 column 1 (char 0)"}\<newline>'', Flush]\<close>
    using error_step(2) [OF sample_stdout_ok n1 p1, of start]
    by (simp add: start_def error_line_def encode_str_def escape_char_def digit_def)
  have x2: \<open>stdout (snd (iteration sample_env (Inr line_no_column) start)) =
     [Write (''{"error": "'' @ quoted ''column'' @ ''"}\<newline>''), Flush]\<close>
    using error_step(2) [OF sample_stdout_ok n2 p2, of start]
    by (simp add: start_def error_line_def encode_str_def escape_char_def quoted_def)
  show ?thesis
    using sample_stdout_ok l1 l2 t1 t2 x1 x2 by (simp add: start_def del: run.simps)
qed

subsection \<open>A request that fails\<close>

text \<open>
  The four ways in which the processing of a line raises: the parse, the extraction of a
  field, the engine (making the script or inferring), and the reading of an attribute of
  the first candidate.
\<close>

lemma process_raises_iff:
  "process env l = Inl e \<longleftrightarrow>
     loads env l = Inl e \<or>
     (\<exists>request. loads env l = Inr request \<and>
        (getitem request ''source'' = Inl e \<or>
         (\<exists>source. getitem request ''source'' = Inr source \<and>
            (getitem request ''path'' = Inl e \<or>
             (\<exists>path. getitem request ''path'' = Inr path \<and>
                (getitem request ''line'' = Inl e \<or>
                 (\<exists>line. getitem request ''line'' = Inr line \<and>
                    (getitem request ''column'' = Inl e \<or>
                     (\<exists>column. getitem request ''column'' = Inr column \<and>
                        (Script env source path = Inl e \<or>
                         (\<exists>script. Script env source path = Inr script \<and>
                            (infer env script line column = Inl e \<or>
                             (\<exists>c cs. infer env script line column = Inr (c # cs) \<and>
                                fields c = Inl e)))))))))))))"
  by (simp add: process_def and_then_def split: sum.split list.split)

text \<open>
  C1. When the processing of a line raises \<open>e\<close>, the handler turns it into the error line
  for \<open>e\<close>, the iteration ends normally, and the run goes on with the reads that follow:
  its status and the events it adds are those of the same run without the failing line,
  with the error line put in front. Standard output accepts its writes.
\<close>

theorem failing_request_isolated:
  assumes "stdout_ok env" and "l \<noteq> []" and "process env l = Inl e"
  shows "fst (iteration env (Inr l) s) = Normal \<and>
         fst (run env (Inr l # rds) s) = fst (run env rds s) \<and>
         (\<exists>evs. stdout (snd (run env rds s)) = stdout s @ evs \<and>
                stdout (snd (run env (Inr l # rds) s)) =
                  stdout s @ [Write (error_line e), Flush] @ evs)"
proof -
  let ?s' = "snd (iteration env (Inr l) s)"
  let ?evs = "concat (map (\<lambda>rd. [Write (response_line env rd), Flush])
                        (takeWhile (\<lambda>rd. rd \<noteq> Inr []) rds))"
  note step = error_step [OF assms]
  have "fst (run env (Inr l # rds) s) = fst (run env rds s)"
    using run_ok [OF assms(1), of rds s] run_ok [OF assms(1), of rds ?s'] step(3) [of rds s]
    by simp
  moreover have "stdout (snd (run env rds s)) = stdout s @ ?evs"
    using run_ok [OF assms(1), of rds s] by simp
  moreover have "stdout (snd (run env (Inr l # rds) s)) =
      stdout s @ [Write (error_line e), Flush] @ ?evs"
    using run_ok [OF assms(1), of rds ?s'] step(2) [of s] step(3) [of rds s] by simp
  ultimately show ?thesis using step(1) by blast
qed

theorem failing_request_isolated_witness:
  "stdout_ok sample_env \<and>
   process sample_env ''not json\<newline>'' = Inl (JSONDecodeError ''Expecting value'' 1 1 0) \<and>
   fst (iteration sample_env (Inr ''not json\<newline>'') start) = Normal \<and>
   fst (run sample_env [Inr ''not json\<newline>'', Inr line_os] start) =
     fst (run sample_env [Inr line_os] start) \<and>
   (\<exists>evs. stdout (snd (run sample_env [Inr line_os] start)) = evs \<and>
          stdout (snd (run sample_env [Inr ''not json\<newline>'', Inr line_os] start)) =
            [Write (error_line (JSONDecodeError ''Expecting value'' 1 1 0)), Flush] @ evs)"
proof -
  have n: "''not json\<newline>'' \<noteq> []" by simp
  have p: "process sample_env ''not json\<newline>'' = Inl (JSONDecodeError ''Expecting value'' 1 1 0)"
    by (rule process_decode_error) (simp add: sample_defs)
  show ?thesis
    using failing_request_isolated [OF sample_stdout_ok n p, of start "[Inr line_os]"]
      sample_stdout_ok p
    by (simp add: start_def del: run.simps)
qed

subsection \<open>A blank line\<close>

text \<open>
  C8. A line that holds only a newline is not the empty string of an exhausted input, so
  the loop does not stop at it: \<^verbatim>\<open>json.loads\<close> is called on it, and when it rejects the
  line (as Python's does, with \<open>e\<close>), the error line for \<open>e\<close> is written and flushed and
  the run goes on reading. Standard output accepts its writes.
\<close>

theorem blank_line_is_answered:
  assumes "stdout_ok env" and "loads env ''\<newline>'' = Inl e"
  shows "fst (iteration env (Inr ''\<newline>'') s) = Normal \<and>
         stdout (snd (iteration env (Inr ''\<newline>'') s)) =
           stdout s @ [Write (error_line e), Flush] \<and>
         run env (Inr ''\<newline>'' # rds) s = run env rds (snd (iteration env (Inr ''\<newline>'') s)) \<and>
         fst (run env [Inr ''\<newline>''] s) = Reading"
proof -
  have n: "''\<newline>'' \<noteq> []" by simp
  have p: "process env ''\<newline>'' = Inl e"
    using assms(2) by (rule process_decode_error)
  note step = error_step [OF assms(1) n p]
  have "fst (run env [Inr ''\<newline>''] s) = Reading"
    using step(3) [of "[]" s] by simp
  with step(1) [of s] step(2) [of s] step(3) [of rds s] show ?thesis by blast
qed

theorem blank_line_is_answered_witness:
  \<open>stdout_ok sample_env \<and>
   loads sample_env ''\<newline>'' = Inl (JSONDecodeError ''Expecting value'' 2 1 1) \<and>
   fst (iteration sample_env (Inr ''\<newline>'') start) = Normal \<and>
   stdout (snd (iteration sample_env (Inr ''\<newline>'') start)) =
     [Write ''{"error": "Expecting value: line 2 column 1 (char 1)"}\<newline>'', Flush] \<and>
   run sample_env [Inr ''\<newline>'', Inr line_os] start =
     run sample_env [Inr line_os] (snd (iteration sample_env (Inr ''\<newline>'') start)) \<and>
   fst (run sample_env [Inr ''\<newline>''] start) = Reading\<close>
proof -
  have l: "loads sample_env ''\<newline>'' = Inl (JSONDecodeError ''Expecting value'' 2 1 1)"
    by (simp add: sample_defs)
  show ?thesis
    using blank_line_is_answered [OF sample_stdout_ok l, of start "[Inr line_os]"]
      sample_stdout_ok l
    by (simp add: start_def error_line_def encode_str_def escape_char_def digit_def
        del: run.simps)
qed

subsection \<open>An exception inside the handler\<close>

text \<open>
  C9. Nothing encloses the handler. When the body of the \<^verbatim>\<open>try\<close> has raised \<open>e\<close> and the
  write of the error line raises \<open>e'\<close>, or the write is accepted and the flush raises
  \<open>e'\<close>, then \<open>e'\<close> leaves the loop: the run ends as \<open>Crashed e'\<close> whatever reads would
  follow, and no further event reaches standard output.
\<close>

theorem handler_exception_escapes:
  assumes "try_body env rd s = (Raise e, s')"
    and "stdout_raises env (stdout s') (Write (error_line e)) = Some e' \<or>
         (stdout_raises env (stdout s') (Write (error_line e)) = None \<and>
          stdout_raises env (stdout s' @ [Write (error_line e)]) Flush = Some e')"
  shows "fst (run env (rd # rds) s) = Crashed e' \<and>
         stdout (snd (run env (rd # rds) s)) =
           (if stdout_raises env (stdout s') (Write (error_line e)) = None
            then stdout s' @ [Write (error_line e)] else stdout s')"
  using assms
  by (auto simp add: iteration_def handler_def seq_def sys_stdout_write_def
      sys_stdout_flush_def)

theorem handler_exception_escapes_witness:
  "try_body closed_pipe_env (Inr ''not json\<newline>'') start =
     (Raise (JSONDecodeError ''Expecting value'' 1 1 0),
      start\<lparr>v_line := Some (PStr ''not json\<newline>'')\<rparr>) \<and>
   stdout_raises closed_pipe_env []
       (Write (error_line (JSONDecodeError ''Expecting value'' 1 1 0))) =
     Some (OtherException ''[Errno 32] Broken pipe'') \<and>
   fst (run closed_pipe_env [Inr ''not json\<newline>'', Inr line_os] start) =
     Crashed (OtherException ''[Errno 32] Broken pipe'') \<and>
   stdout (snd (run closed_pipe_env [Inr ''not json\<newline>'', Inr line_os] start)) = [] \<and>
   fst (run flush_fails_env [Inr ''not json\<newline>'', Inr line_os] start) =
     Crashed (OtherException ''[Errno 32] Broken pipe'') \<and>
   stdout (snd (run flush_fails_env [Inr ''not json\<newline>'', Inr line_os] start)) =
     [Write (error_line (JSONDecodeError ''Expecting value'' 1 1 0))]"
proof -
  let ?e = "JSONDecodeError ''Expecting value'' 1 1 0"
  let ?s' = "start\<lparr>v_line := Some (PStr ''not json\<newline>'')\<rparr> :: (pyval \<times> pyval) state"
  have t1: "try_body closed_pipe_env (Inr ''not json\<newline>'') start = (Raise ?e, ?s')"
    by (simp add: body_defs closed_pipe_env_def sample_defs)
  have t2: "try_body flush_fails_env (Inr ''not json\<newline>'') start = (Raise ?e, ?s')"
    by (simp add: body_defs flush_fails_env_def sample_defs)
  have w1: "stdout_raises closed_pipe_env (stdout ?s') (Write (error_line ?e)) =
      Some (OtherException ''[Errno 32] Broken pipe'')"
    by (simp add: closed_pipe_env_def)
  have w2: "stdout_raises flush_fails_env (stdout ?s') (Write (error_line ?e)) = None"
    "stdout_raises flush_fails_env (stdout ?s' @ [Write (error_line ?e)]) Flush =
      Some (OtherException ''[Errno 32] Broken pipe'')"
    by (simp_all add: flush_fails_env_def)
  note a = handler_exception_escapes [OF t1 disjI1, OF w1, of "[Inr line_os]"]
  note b = handler_exception_escapes [OF t2 disjI2, OF conjI, OF w2, of "[Inr line_os]"]
  show ?thesis
    using a b t1 w1 w2(1) by (simp add: start_def del: run.simps)
qed

subsection \<open>Every answer is one line\<close>

lemma process_result_cases:
  assumes "process env l = Inr r"
  shows "r = PNone \<or>
         (\<exists>n f t d m. r = PDict [(''name'', opt n), (''full_name'', opt f), (''type'', opt t),
                                 (''docstring'', opt d), (''module_name'', opt m)])"
  using assms
  by (auto simp add: process_def and_then_def fields_def split: sum.splits list.splits)

lemma dumps_opt_no_newline: "CHR 0x0A \<notin> set (dumps (opt v))"
  by (cases v) (simp_all add: opt_def encode_str_no_newline)

lemma process_result_no_newline:
  assumes "process env l = Inr r"
  shows "CHR 0x0A \<notin> set (dumps r)"
  using process_result_cases [OF assms]
  by (auto simp add: encode_str_no_newline dumps_opt_no_newline)

lemma response_line_one_line: "one_line (response_line env rd)"
proof (cases rd)
  case (Inl e)
  then show ?thesis by (simp add: response_line_def error_line_one_line)
next
  case (Inr l)
  show ?thesis
  proof (cases "process env l")
    case (Inl e)
    with Inr show ?thesis by (simp add: response_line_def error_line_one_line)
  next
    case r: (Inr r)
    have "one_line (dumps r @ ''\<newline>'')"
      by (rule one_line_append) (rule process_result_no_newline [OF r])
    with Inr r show ?thesis by (simp add: response_line_def)
  qed
qed

lemma written_append: "written (h @ h') = written h @ written h'"
  by (induction h rule: written.induct) simp_all

lemma written_responses:
  "written (concat (map (\<lambda>rd. [Write (f rd), Flush]) rds)) = map f rds"
  by (induction rds) simp_all

lemma no_eof_takeWhile:
  "Inr [] \<notin> set rds \<Longrightarrow> takeWhile (\<lambda>rd. rd \<noteq> Inr []) rds = rds"
  by (induction rds) auto

text \<open>
  C5. On reads none of which is the end of the input, the run adds to standard output,
  for each read in order, the write of the one line that answers it followed at once by
  a flush, and nothing else: the texts written are the answers to the reads, one each, in
  the order of the reads. Each answer ends in a newline and holds no other. Standard
  output accepts its writes.
\<close>

theorem one_line_out_per_line_in:
  assumes "stdout_ok env" and "Inr [] \<notin> set rds"
  shows "fst (run env rds s) = Reading \<and>
         stdout (snd (run env rds s)) =
           stdout s @ concat (map (\<lambda>rd. [Write (response_line env rd), Flush]) rds) \<and>
         written (stdout (snd (run env rds s))) =
           written (stdout s) @ map (response_line env) rds \<and>
         list_all one_line (map (response_line env) rds)"
proof -
  have "list_all one_line (map (response_line env) rds)"
    by (simp add: list_all_iff response_line_one_line)
  then show ?thesis
    using run_ok [OF assms(1), of rds s] assms(2)
    by (simp add: no_eof_takeWhile written_append written_responses)
qed

theorem one_line_out_per_line_in_witness:
  \<open>stdout_ok sample_env \<and>
   Inr [] \<notin> set [Inr line_os, Inr ''not json\<newline>'', Inr line_blank_source] \<and>
   fst (run sample_env [Inr line_os, Inr ''not json\<newline>'', Inr line_blank_source] start) =
     Reading \<and>
   written (stdout (snd (run sample_env
       [Inr line_os, Inr ''not json\<newline>'', Inr line_blank_source] start))) =
     [''{"name": "os", "full_name": "os", "type": "module", '' @
        ''"docstring": "OS routines", "module_name": "os"}\<newline>'',
      ''{"error": "Expecting value: line 1 column 1 (char 0)"}\<newline>'',
      ''null\<newline>'']\<close>
proof -
  have n: "Inr [] \<notin> set [Inr line_os, Inr ''not json\<newline>'', Inr line_blank_source]"
    by (simp add: line_os_def line_blank_source_def)
  have r1: \<open>response_line sample_env (Inr line_os) =
      ''{"name": "os", "full_name": "os", "type": "module", '' @
        ''"docstring": "OS routines", "module_name": "os"}\<newline>''\<close>
    by (simp add: response_line_def process_def fields_def and_then_def sample_defs opt_def
        encode_str_def escape_char_def)
  have r2: \<open>response_line sample_env (Inr ''not json\<newline>'') =
      ''{"error": "Expecting value: line 1 column 1 (char 0)"}\<newline>''\<close>
    by (simp add: response_line_def process_def and_then_def sample_defs error_line_def
        encode_str_def escape_char_def digit_def)
  have r3: "response_line sample_env (Inr line_blank_source) = ''null\<newline>''"
    by (simp add: response_line_def process_def and_then_def sample_defs)
  show ?thesis
    using one_line_out_per_line_in [OF sample_stdout_ok n, of start] sample_stdout_ok n
    by (simp add: r1 r2 r3 start_def del: run.simps)
qed

subsection \<open>How the loop ends\<close>

lemma emit_not_break: "fst (emit env t h) \<noteq> Break"
  by (simp add: emit_def split: option.split)

lemma iteration_io_break:
  assumes "fst (iteration_io env rd h) = Break"
  shows "rd = Inr []"
proof (rule ccontr)
  assume ne: "rd \<noteq> Inr []"
  have "fst (iteration_io env rd h) \<noteq> Break"
  proof (cases rd)
    case (Inl e)
    then show ?thesis by (simp add: iteration_io_def try_body_io_def emit_not_break)
  next
    case (Inr l)
    with ne have l: "l \<noteq> []" by simp
    show ?thesis
    proof (cases "process env l")
      case (Inl e)
      with Inr l show ?thesis by (simp add: iteration_io_def try_body_io_def emit_not_break)
    next
      case r: (Inr r)
      obtain sig h' where em: "emit env (dumps r @ ''\<newline>'') h = (sig, h')"
        by (cases "emit env (dumps r @ ''\<newline>'') h")
      with emit_not_break [of env "dumps r @ ''\<newline>''" h] have "sig \<noteq> Break" by simp
      with Inr l r em show ?thesis
        by (cases sig) (simp_all add: iteration_io_def try_body_io_def emit_not_break)
    qed
  qed
  with assms show False by simp
qed

lemma iteration_break:
  assumes "fst (iteration env rd s) = Break"
  shows "rd = Inr []"
proof -
  have "fst (iteration_io env rd (stdout s)) = fst (iteration env rd s)"
    by (metis iteration_obs fst_apsnd)
  with assms have "fst (iteration_io env rd (stdout s)) = Break" by simp
  then show ?thesis by (rule iteration_io_break)
qed

lemma run_eof:
  "fst (run env (Inr [] # post) s) = Stopped"
  "stdout (snd (run env (Inr [] # post) s)) = stdout s"
  by (simp_all add: run_step iteration_eof del: run.simps)

lemma run_append:
  "fst (run env pre s) = Reading \<Longrightarrow> run env (pre @ rds) s = run env rds (snd (run env pre s))"
proof (induction pre arbitrary: s)
  case Nil
  show ?case by simp
next
  case (Cons rd pre)
  from Cons.prems have n: "fst (iteration env rd s) = Normal"
    by (cases "fst (iteration env rd s)") (simp_all add: run_step del: run.simps)
  with Cons.prems have "fst (run env pre (snd (iteration env rd s))) = Reading"
    by (simp add: run_step del: run.simps)
  from Cons.IH [OF this] n show ?case
    by (simp add: run_step del: run.simps)
qed

lemma run_stopped_split:
  "fst (run env rds s) = Stopped \<Longrightarrow>
   \<exists>pre post. rds = pre @ Inr [] # post \<and> fst (run env pre s) = Reading"
proof (induction rds arbitrary: s)
  case Nil
  then show ?case by simp
next
  case (Cons rd rds)
  show ?case
  proof (cases "fst (iteration env rd s)")
    case Normal
    with Cons.prems have "fst (run env rds (snd (iteration env rd s))) = Stopped"
      by (simp add: run_step del: run.simps)
    from Cons.IH [OF this] obtain pre post
      where "rds = pre @ Inr [] # post"
        and "fst (run env pre (snd (iteration env rd s))) = Reading" by blast
    with Normal have "rd # rds = (rd # pre) @ Inr [] # post \<and>
        fst (run env (rd # pre) s) = Reading"
      by (simp add: run_step del: run.simps)
    then show ?thesis by blast
  next
    case Break
    then have "rd = Inr []" by (rule iteration_break)
    then have "rd # rds = [] @ Inr [] # rds \<and> fst (run env [] s) = Reading" by simp
    then show ?thesis by blast
  next
    case (Raise e)
    with Cons.prems show ?thesis by (simp add: run_step del: run.simps)
  qed
qed

lemma run_stops_at_eof:
  assumes "fst (run env pre s) = Reading"
  shows "fst (run env (pre @ Inr [] # post) s) = Stopped"
    and "stdout (snd (run env (pre @ Inr [] # post) s)) = stdout (snd (run env pre s))"
  using run_append [OF assms, of "Inr [] # post"] run_eof [of env post "snd (run env pre s)"]
  by simp_all

text \<open>
  C6. The run ends by leaving the loop (\<open>Stopped\<close>) exactly when the loop, still reading,
  is given the empty string of an exhausted input: the reads are some \<open>pre\<close> after which
  the process is still \<open>Reading\<close>, then the empty string. At that read nothing is written
  and no later read is made: standard output is as the reads before it left it. On a
  standard output that accepts its writes no exception leaves the loop, so the run has
  ended exactly when the empty string is among the reads and is otherwise still reading.
\<close>

theorem stops_exactly_at_end_of_input:
  "(fst (run env rds s) = Stopped \<longleftrightarrow>
      (\<exists>pre post. rds = pre @ Inr [] # post \<and> fst (run env pre s) = Reading)) \<and>
   (\<forall>pre post. fst (run env pre s) = Reading \<longrightarrow>
      fst (run env (pre @ Inr [] # post) s) = Stopped \<and>
      stdout (snd (run env (pre @ Inr [] # post) s)) = stdout (snd (run env pre s))) \<and>
   (stdout_ok env \<longrightarrow>
      (fst (run env rds s) = Stopped \<longleftrightarrow> Inr [] \<in> set rds) \<and>
      (fst (run env rds s) = Reading \<longleftrightarrow> Inr [] \<notin> set rds))"
proof (intro conjI allI impI)
  show "fst (run env rds s) = Stopped \<longleftrightarrow>
      (\<exists>pre post. rds = pre @ Inr [] # post \<and> fst (run env pre s) = Reading)"
    using run_stopped_split [of env rds s] run_stops_at_eof(1) [of env _ s] by blast
next
  fix pre post
  assume "fst (run env pre s) = Reading"
  then show "fst (run env (pre @ Inr [] # post) s) = Stopped"
    and "stdout (snd (run env (pre @ Inr [] # post) s)) = stdout (snd (run env pre s))"
    by (rule run_stops_at_eof)+
next
  assume "stdout_ok env"
  from run_ok [OF this, of rds s]
  show "fst (run env rds s) = Stopped \<longleftrightarrow> Inr [] \<in> set rds"
    and "fst (run env rds s) = Reading \<longleftrightarrow> Inr [] \<notin> set rds"
    by simp_all
qed

theorem stops_exactly_at_end_of_input_witness:
  "fst (run sample_env [Inr line_os] start) = Reading \<and>
   fst (run sample_env [Inr line_os, Inr [], Inr ''not json\<newline>''] start) = Stopped \<and>
   stdout (snd (run sample_env [Inr line_os, Inr [], Inr ''not json\<newline>''] start)) =
     stdout (snd (run sample_env [Inr line_os] start)) \<and>
   stdout_ok sample_env \<and>
   fst (run sample_env [Inr line_os, Inr ''not json\<newline>''] start) = Reading \<and>
   fst (run sample_env [] start) = Reading \<and>
   fst (run sample_env [Inr []] start) = Stopped \<and>
   stdout (snd (run sample_env [Inr []] start)) = []"
proof -
  let ?two = "[Inr line_os, Inr ''not json\<newline>''] :: (pyexc + string) list"
  have ne: "Inr [] \<notin> set [Inr line_os :: pyexc + string]" "Inr [] \<notin> set ?two"
    by (simp_all add: line_os_def)
  note t = stops_exactly_at_end_of_input [of sample_env _ start]
  have a: "fst (run sample_env [Inr line_os] start) = Reading"
    using t [of "[Inr line_os]"] sample_stdout_ok ne(1) by blast
  have b: "fst (run sample_env ([Inr line_os] @ Inr [] # [Inr ''not json\<newline>'']) start) =
        Stopped \<and>
      stdout (snd (run sample_env ([Inr line_os] @ Inr [] # [Inr ''not json\<newline>'']) start)) =
        stdout (snd (run sample_env [Inr line_os] start))"
    using t [of "[]"] a by blast
  have c: "fst (run sample_env ?two start) = Reading"
    using t [of ?two] sample_stdout_ok ne(2) by blast
  have d: "fst (run sample_env [] start) = Reading" by simp
  have e: "fst (run sample_env ([] @ Inr [] # []) start) = Stopped \<and>
      stdout (snd (run sample_env ([] @ Inr [] # []) start)) =
        stdout (snd (run sample_env [] start))"
    using t [of "[]"] d by blast
  show ?thesis
    using a b c d e sample_stdout_ok by (simp add: start_def del: run.simps(2))
qed

subsection \<open>Nothing is carried from one iteration to the next\<close>







subsection \<open>The answer is a function of the line\<close>

lemma takeWhile_nth_prefix:
  assumes "i < length rds" and "x \<notin> set (take (Suc i) rds)"
  shows "i < length (takeWhile (\<lambda>rd. rd \<noteq> x) rds) \<and>
         takeWhile (\<lambda>rd. rd \<noteq> x) rds ! i = rds ! i"
proof -
  have all: "\<forall>rd \<in> set (take (Suc i) rds). rd \<noteq> x" using assms(2) by auto
  have "takeWhile (\<lambda>rd. rd \<noteq> x) (take (Suc i) rds @ drop (Suc i) rds) =
      take (Suc i) rds @ takeWhile (\<lambda>rd. rd \<noteq> x) (drop (Suc i) rds)"
    using all by (intro takeWhile_append2) simp
  then have tw: "takeWhile (\<lambda>rd. rd \<noteq> x) rds =
      take (Suc i) rds @ takeWhile (\<lambda>rd. rd \<noteq> x) (drop (Suc i) rds)"
    by simp
  have len: "i < length (take (Suc i) rds)" using assms(1) by simp
  show ?thesis
    using assms(1) len by (simp add: tw nth_append)
qed

lemma answer_at:
  assumes "stdout_ok env" and "stdout s = []" and "i < length rds"
    and "Inr [] \<notin> set (take (Suc i) rds)"
  shows "written (stdout (snd (run env rds s))) ! i = response_line env (rds ! i)"
proof -
  have "written (stdout (snd (run env rds s))) =
      map (response_line env) (takeWhile (\<lambda>rd. rd \<noteq> Inr []) rds)"
    using run_ok [OF assms(1), of rds s] assms(2) by (simp add: written_responses)
  then show ?thesis
    using takeWhile_nth_prefix [OF assms(3,4)] by simp
qed

text \<open>
  C10. With the environment fixed, the line written in answer to a read is
  \<open>response_line env\<close> of that read, whatever was read before it and whatever the store
  held at the start: two runs that meet the same read, at any positions before the end of
  their inputs, write the same line for it. Standard output accepts its writes.
\<close>

theorem same_line_same_answer:
  assumes "stdout_ok env"
    and "stdout s1 = []" and "stdout s2 = []"
    and "i < length rds1" and "j < length rds2"
    and "Inr [] \<notin> set (take (Suc i) rds1)" and "Inr [] \<notin> set (take (Suc j) rds2)"
    and "rds1 ! i = rds2 ! j"
  shows "written (stdout (snd (run env rds1 s1))) ! i =
           written (stdout (snd (run env rds2 s2))) ! j \<and>
         written (stdout (snd (run env rds1 s1))) ! i = response_line env (rds1 ! i)"
  using answer_at [OF assms(1,2,4,6)] answer_at [OF assms(1,3,5,7)] assms(8) by simp

theorem same_line_same_answer_witness:
  \<open>stdout_ok sample_env \<and>
   [Inr line_os, Inr ''not json\<newline>'' :: pyexc + string] ! 0 =
     [Inr ''\<newline>'', Inr line_blank_source, Inr line_os] ! 2 \<and>
   written (stdout (snd (run sample_env [Inr line_os, Inr ''not json\<newline>''] start))) ! 0 =
     written (stdout (snd (run sample_env [Inr ''\<newline>'', Inr line_blank_source, Inr line_os]
        (start\<lparr>v_result := Some (PInt 7)\<rparr>)))) ! 2 \<and>
   written (stdout (snd (run sample_env [Inr line_os, Inr ''not json\<newline>''] start))) ! 0 =
     ''{"name": "os", "full_name": "os", "type": "module", '' @
        ''"docstring": "OS routines", "module_name": "os"}\<newline>''\<close>
proof -
  let ?a = "[Inr line_os, Inr ''not json\<newline>''] :: (pyexc + string) list"
  let ?b = "[Inr ''\<newline>'', Inr line_blank_source, Inr line_os] :: (pyexc + string) list"
  have r1: \<open>response_line sample_env (Inr line_os) =
      ''{"name": "os", "full_name": "os", "type": "module", '' @
        ''"docstring": "OS routines", "module_name": "os"}\<newline>''\<close>
    by (simp add: response_line_def process_def fields_def and_then_def sample_defs opt_def
        encode_str_def escape_char_def)
  have h: "stdout (start :: (pyval \<times> pyval) state) = []"
    "stdout (start\<lparr>v_result := Some (PInt 7)\<rparr> :: (pyval \<times> pyval) state) = []"
    "0 < length ?a" "2 < length ?b"
    "Inr [] \<notin> set (take (Suc 0) ?a)" "Inr [] \<notin> set (take (Suc 2) ?b)"
    "?a ! 0 = ?b ! 2"
    by (simp_all add: start_def line_os_def line_blank_source_def)
  note t = same_line_same_answer [OF sample_stdout_ok h]
  from t have g1: "written (stdout (snd (run sample_env ?a start))) ! 0 =
      written (stdout (snd (run sample_env ?b (start\<lparr>v_result := Some (PInt 7)\<rparr>)))) ! 2"
    by (rule conjunct1)
  from t have "written (stdout (snd (run sample_env ?a start))) ! 0 =
      response_line sample_env (?a ! 0)"
    by (rule conjunct2)
  then have g2: \<open>written (stdout (snd (run sample_env ?a start))) ! 0 =
      ''{"name": "os", "full_name": "os", "type": "module", '' @
        ''"docstring": "OS routines", "module_name": "os"}\<newline>''\<close>
    by (simp add: r1 del: run.simps)
  show ?thesis
    by (intro conjI) (rule sample_stdout_ok h(7) g1 g2)+
qed

end
